theory Spec2Isabelle
  imports Main "HOL-Library.Word"
begin

unbundle bit_operations_syntax

section \<open>Data model (buttonDebounce.h)\<close>

text \<open>
  Every field of the C++ class is a \<open>uint8_t\<close> or a \<open>bool\<close>.  A \<open>uint8_t\<close> is an
  \<open>8 word\<close>: addition and subtraction wrap modulo 256, so a counter that could
  overflow in the source overflows in the model as well.
\<close>

type_synonym u8 = "8 word"

text \<open>\<open>struct Config\<close>.  The constructor stores it unvalidated.\<close>

record Config =
  integ_max :: u8
  integ_on :: u8
  integ_off :: u8
  consec_n :: u8
  edge_threshold :: u8
  unstable_timeout :: u8
  bounce_confirm :: u8

text \<open>The default member initialisers of \<open>Config\<close>.\<close>

definition default_Config :: Config where
  "default_Config =
     \<lparr>integ_max = 6, integ_on = 4, integ_off = 2, consec_n = 3,
      edge_threshold = 4, unstable_timeout = 16, bounce_confirm = 1\<rparr>"

text \<open>\<open>struct IntegratorState\<close> and \<open>struct HistoryState\<close>, the two members of the union
  \<open>EngineState\<close>.\<close>

record IntegratorState =
  acc :: u8

record HistoryState =
  hist :: u8
  unstable :: u8
  bounce_k :: u8

text \<open>
  The private members of \<open>class ButtonDebounce\<close>: \<open>cfg_\<close>, \<open>state_\<close>, \<open>pressed_\<close>,
  \<open>released_\<close> and \<open>eng_\<close> (a trailing underscore is not a legal name here, so the
  members carry the prefix \<open>m_\<close>).  Exactly one engine file is compiled into a
  program, and each engine reads and writes one member of the union only: the
  integrator engine \<open>eng_.integrator\<close>, the two history engines \<open>eng_.history\<close>.  The
  type parameter is that member.
\<close>

record 'e ButtonDebounce =
  m_cfg :: Config
  m_state :: bool
  m_pressed :: bool
  m_released :: bool
  m_eng :: 'e

text \<open>The inline accessors of the header.\<close>

definition pressed :: "'e ButtonDebounce \<Rightarrow> bool" where
  "pressed b = m_pressed b"

definition released :: "'e ButtonDebounce \<Rightarrow> bool" where
  "released b = m_released b"

definition down :: "'e ButtonDebounce \<Rightarrow> bool" where
  "down b = m_state b"

definition up :: "'e ButtonDebounce \<Rightarrow> bool" where
  "up b = (\<not> m_state b)"

text \<open>
  \<open>popcount8\<close>.  The source computes in \<open>unsigned\<close> after integer promotion and casts
  each line back to \<open>uint8_t\<close>; the model does the same in a \<open>32 word\<close>.
\<close>

definition popcount8 :: "u8 \<Rightarrow> u8" where
  "popcount8 x0 =
     (let x1 = (ucast (((ucast x0 :: 32 word) AND 0x55) + (drop_bit 1 (ucast x0 :: 32 word) AND 0x55)) :: u8);
          x2 = (ucast (((ucast x1 :: 32 word) AND 0x33) + (drop_bit 2 (ucast x1 :: 32 word) AND 0x33)) :: u8)
      in (ucast (((ucast x2 :: 32 word) + drop_bit 4 (ucast x2 :: 32 word)) AND 0x0F) :: u8))"

definition edgeCount8 :: "u8 \<Rightarrow> u8" where
  "edgeCount8 h = (let t = (ucast ((ucast h :: 32 word) XOR drop_bit 1 (ucast h :: 32 word)) :: u8) in popcount8 t)"

text \<open>
  \<open>update_hist\<close> of the two history engines (the same text in both files), on the
  value instead of through the pointer.
\<close>

definition update_hist :: "u8 \<Rightarrow> bool \<Rightarrow> u8" where
  "update_hist h raw_down =
     (ucast (push_bit 1 (ucast h :: 32 word) OR (if raw_down then 1 else 0)) :: u8)"

text \<open>
  The mask of the acceptance rule,
  \<open>(n >= 8u) ? 0xFFu : (uint8_t)((1u << n) - 1u)\<close>, written the same way in the
  consecutive and the edge-gated engine.
\<close>

definition consec_mask :: "u8 \<Rightarrow> u8" where
  "consec_mask n = (if 8 \<le> n then 0xFF else (ucast (push_bit (unat n) (1 :: 32 word) - 1) :: u8))"

section \<open>Integrator engine (buttonDebounceIntegrator.cpp)\<close>

definition Integrator_reset ::
  "IntegratorState ButtonDebounce \<Rightarrow> bool \<Rightarrow> IntegratorState ButtonDebounce" where
  "Integrator_reset b start_down =
     b\<lparr>m_state := start_down, m_pressed := False, m_released := False,
       m_eng := \<lparr>acc = (if start_down then integ_max (m_cfg b) else 0)\<rparr>\<rparr>"

text \<open>The constructor: \<open>cfg_(cfg)\<close>, the default member initialisers, then \<open>reset(false)\<close>.\<close>

definition Integrator_construct :: "Config \<Rightarrow> IntegratorState ButtonDebounce" where
  "Integrator_construct cfg =
     Integrator_reset
       \<lparr>m_cfg = cfg, m_state = False, m_pressed = False, m_released = False,
        m_eng = \<lparr>acc = 0\<rparr>\<rparr> False"

text \<open>The saturating step of \<open>update\<close> on the accumulator.\<close>

definition Integrator_acc_step :: "Config \<Rightarrow> u8 \<Rightarrow> bool \<Rightarrow> u8" where
  "Integrator_acc_step cfg a raw_down =
     (if raw_down then (if a < integ_max cfg then a + 1 else a)
      else (if 0 < a then a - 1 else a))"

definition Integrator_update ::
  "IntegratorState ButtonDebounce \<Rightarrow> bool \<Rightarrow> IntegratorState ButtonDebounce" where
  "Integrator_update b raw_down =
     (let b1 = b\<lparr>m_pressed := False, m_released := False\<rparr>;
          b2 = b1\<lparr>m_eng := \<lparr>acc = Integrator_acc_step (m_cfg b1) (acc (m_eng b1)) raw_down\<rparr>\<rparr>
      in if \<not> m_state b2 \<and> integ_on (m_cfg b2) \<le> acc (m_eng b2)
         then b2\<lparr>m_state := True, m_pressed := True\<rparr>
         else if m_state b2 \<and> acc (m_eng b2) \<le> integ_off (m_cfg b2)
         then b2\<lparr>m_state := False, m_released := True\<rparr>
         else b2)"

definition Integrator_history :: "IntegratorState ButtonDebounce \<Rightarrow> u8" where
  "Integrator_history b = 0"

section \<open>The acceptance rule shared by the history engines\<close>

text \<open>
  The block from \<open>const uint8_t n = cfg_.consec_n;\<close> to the end of the
  \<open>if\<close>/\<open>else if\<close>, identical in buttonDebounceConsecutive.cpp and inside
  \<open>if (!bouncing)\<close> in buttonDebounceEdgeGated.cpp.
\<close>

definition accept_rule :: "HistoryState ButtonDebounce \<Rightarrow> HistoryState ButtonDebounce" where
  "accept_rule b =
     (let n = consec_n (m_cfg b);
          mask = consec_mask n;
          all_pressed = (hist (m_eng b) AND mask = mask);
          all_released = (hist (m_eng b) AND mask = 0)
      in if \<not> m_state b \<and> all_pressed then b\<lparr>m_state := True, m_pressed := True\<rparr>
         else if m_state b \<and> all_released then b\<lparr>m_state := False, m_released := True\<rparr>
         else b)"

text \<open>\<open>reset\<close> and the constructor have the same text in both history engines.\<close>

definition History_reset ::
  "HistoryState ButtonDebounce \<Rightarrow> bool \<Rightarrow> HistoryState ButtonDebounce" where
  "History_reset b start_down =
     b\<lparr>m_state := start_down, m_pressed := False, m_released := False,
       m_eng := \<lparr>hist = (if start_down then 0xFF else 0x00), unstable = 0, bounce_k = 0\<rparr>\<rparr>"

text \<open>
  The union's constructor initialises \<open>integrator.acc\<close>, the byte that \<open>history.hist\<close>
  overlays, and leaves the other two bytes unset; \<open>reset(false)\<close> then writes all
  three, so the constructor takes the bytes it finds as a parameter.
\<close>

definition History_construct_from :: "HistoryState \<Rightarrow> Config \<Rightarrow> HistoryState ButtonDebounce" where
  "History_construct_from junk cfg =
     History_reset
       \<lparr>m_cfg = cfg, m_state = False, m_pressed = False, m_released = False,
        m_eng = junk\<lparr>hist := 0\<rparr>\<rparr> False"

definition History_construct :: "Config \<Rightarrow> HistoryState ButtonDebounce" where
  "History_construct cfg = History_construct_from \<lparr>hist = 0, unstable = 0, bounce_k = 0\<rparr> cfg"

definition History_history :: "HistoryState ButtonDebounce \<Rightarrow> u8" where
  "History_history b = hist (m_eng b)"

section \<open>Consecutive engine (buttonDebounceConsecutive.cpp)\<close>

definition Consecutive_update ::
  "HistoryState ButtonDebounce \<Rightarrow> bool \<Rightarrow> HistoryState ButtonDebounce" where
  "Consecutive_update b raw_down =
     (let b1 = b\<lparr>m_pressed := False, m_released := False\<rparr>;
          b2 = b1\<lparr>m_eng := (m_eng b1)\<lparr>hist := update_hist (hist (m_eng b1)) raw_down\<rparr>\<rparr>
      in accept_rule b2)"

section \<open>Edge-gated engine (buttonDebounceEdgeGated.cpp)\<close>

text \<open>
  \<open>update\<close> up to the line before the timeout test: the flags cleared, the sample
  shifted in, \<open>bounce_k\<close> and \<open>unstable\<close> counted.
\<close>

definition EdgeGated_bouncing_now :: "HistoryState ButtonDebounce \<Rightarrow> bool \<Rightarrow> bool" where
  "EdgeGated_bouncing_now b raw_down =
     (let edges = edgeCount8 (update_hist (hist (m_eng b)) raw_down)
      in edge_threshold (m_cfg b) \<le> edges)"

definition EdgeGated_count ::
  "HistoryState ButtonDebounce \<Rightarrow> bool \<Rightarrow> HistoryState ButtonDebounce" where
  "EdgeGated_count b raw_down =
     (let b1 = b\<lparr>m_pressed := False, m_released := False\<rparr>;
          b2 = b1\<lparr>m_eng := (m_eng b1)\<lparr>hist := update_hist (hist (m_eng b1)) raw_down\<rparr>\<rparr>;
          edges = edgeCount8 (hist (m_eng b2));
          bouncing_now = (edge_threshold (m_cfg b2) \<le> edges);
          b3 = (if bouncing_now
                then (if bounce_k (m_eng b2) < 255
                      then b2\<lparr>m_eng := (m_eng b2)\<lparr>bounce_k := bounce_k (m_eng b2) + 1\<rparr>\<rparr>
                      else b2)
                else b2\<lparr>m_eng := (m_eng b2)\<lparr>bounce_k := 0\<rparr>\<rparr>);
          bouncing = (bounce_confirm (m_cfg b3) \<le> bounce_k (m_eng b3))
      in if bouncing
         then (if unstable (m_eng b3) < 255
               then b3\<lparr>m_eng := (m_eng b3)\<lparr>unstable := unstable (m_eng b3) + 1\<rparr>\<rparr>
               else b3)
         else b3\<lparr>m_eng := (m_eng b3)\<lparr>unstable := 0\<rparr>\<rparr>)"

text \<open>\<open>bouncing\<close>, read off the state the counting leaves (\<open>unstable\<close> does not change
  \<open>bounce_k\<close>).\<close>

definition EdgeGated_bouncing :: "HistoryState ButtonDebounce \<Rightarrow> bool \<Rightarrow> bool" where
  "EdgeGated_bouncing b raw_down =
     (let c = EdgeGated_count b raw_down in bounce_confirm (m_cfg c) \<le> bounce_k (m_eng c))"

definition EdgeGated_update ::
  "HistoryState ButtonDebounce \<Rightarrow> bool \<Rightarrow> HistoryState ButtonDebounce" where
  "EdgeGated_update b raw_down =
     (let c = EdgeGated_count b raw_down;
          bouncing = (bounce_confirm (m_cfg c) \<le> bounce_k (m_eng c))
      in if unstable_timeout (m_cfg c) \<le> unstable (m_eng c)
         then c\<lparr>m_eng := \<lparr>hist = (if m_state c then 0xFF else 0x00), unstable = 0, bounce_k = 0\<rparr>\<rparr>
         else if \<not> bouncing then accept_rule c
         else c)"

section \<open>Call sequences\<close>

text \<open>A caller's use of one object: a sequence of \<open>update\<close> and \<open>reset\<close> calls.\<close>

datatype call = Update bool | Reset bool

fun Integrator_call :: "IntegratorState ButtonDebounce \<Rightarrow> call \<Rightarrow> IntegratorState ButtonDebounce" where
  "Integrator_call b (Update raw_down) = Integrator_update b raw_down"
| "Integrator_call b (Reset start_down) = Integrator_reset b start_down"

fun Consecutive_call :: "HistoryState ButtonDebounce \<Rightarrow> call \<Rightarrow> HistoryState ButtonDebounce" where
  "Consecutive_call b (Update raw_down) = Consecutive_update b raw_down"
| "Consecutive_call b (Reset start_down) = History_reset b start_down"

fun EdgeGated_call :: "HistoryState ButtonDebounce \<Rightarrow> call \<Rightarrow> HistoryState ButtonDebounce" where
  "EdgeGated_call b (Update raw_down) = EdgeGated_update b raw_down"
| "EdgeGated_call b (Reset start_down) = History_reset b start_down"

text \<open>The calls of a list, in order, first call first.\<close>

definition Integrator_run :: "IntegratorState ButtonDebounce \<Rightarrow> call list \<Rightarrow> IntegratorState ButtonDebounce" where
  "Integrator_run b cs = foldl Integrator_call b cs"

definition Consecutive_run :: "HistoryState ButtonDebounce \<Rightarrow> call list \<Rightarrow> HistoryState ButtonDebounce" where
  "Consecutive_run b cs = foldl Consecutive_call b cs"

definition EdgeGated_run :: "HistoryState ButtonDebounce \<Rightarrow> call list \<Rightarrow> HistoryState ButtonDebounce" where
  "EdgeGated_run b cs = foldl EdgeGated_call b cs"

section \<open>Inputs used in the examples\<close>

text \<open>\<open>n\<close> samples that alternate, the first one \<open>first\<close>: the raw input of a
  chattering contact.\<close>

fun alternating :: "bool \<Rightarrow> nat \<Rightarrow> bool list" where
  "alternating first 0 = []"
| "alternating first (Suc n) = first # alternating (\<not> first) n"

text \<open>A pressed edge-gated debouncer, default configuration, fifteen ticks into
  confirmed chatter, with an alternating window.\<close>

definition chatter_example :: "HistoryState ButtonDebounce" where
  "chatter_example =
     \<lparr>m_cfg = default_Config, m_state = True, m_pressed = False, m_released = False,
      m_eng = \<lparr>hist = 0x55, unstable = 15, bounce_k = 1\<rparr>\<rparr>"

text \<open>The same window on a released debouncer three ticks into confirmed chatter.\<close>

definition gated_example :: "HistoryState ButtonDebounce" where
  "gated_example =
     \<lparr>m_cfg = default_Config, m_state = False, m_pressed = False, m_released = False,
      m_eng = \<lparr>hist = 0x55, unstable = 3, bounce_k = 1\<rparr>\<rparr>"

text \<open>Two configurations outside the documented ranges: \<open>integ_off\<close> as large as
  \<open>integ_max\<close>, and \<open>consec_n = 0\<close>.\<close>

definition off_at_max_Config :: Config where
  "off_at_max_Config = default_Config\<lparr>integ_off := 6\<rparr>"

definition n0_Config :: Config where
  "n0_Config = default_Config\<lparr>consec_n := 0\<rparr>"

text \<open>\<open>consec_n\<close> above the eight bits of the shift register.\<close>

definition n9_Config :: Config where
  "n9_Config = default_Config\<lparr>consec_n := 9\<rparr>"

text \<open>A consecutive-engine debouncer, default configuration, after \<open>reset(false)\<close>
  and two pressed samples: still released, with \<open>hist = 0b011\<close>.\<close>

definition partial_run_example :: "HistoryState ButtonDebounce" where
  "partial_run_example =
     Consecutive_run (History_construct default_Config) [Update True, Update True]"

section \<open>An invariant of the consecutive engine\<close>

text \<open>
  Used in the proofs only: the debouncer is released, the \<open>j\<close> newest samples of
  the history are pressed and the one before them is not.
\<close>

definition trailing_run :: "nat \<Rightarrow> HistoryState ButtonDebounce \<Rightarrow> bool" where
  "trailing_run j b =
     (\<not> m_state b \<and> (\<forall>i<j. bit (hist (m_eng b)) i) \<and> \<not> bit (hist (m_eng b)) j)"

section \<open>Frame lemmas\<close>

lemmas accessor_defs = pressed_def released_def down_def up_def

lemma EdgeGated_count_frame:
  "m_cfg (EdgeGated_count b r) = m_cfg b"
  "m_state (EdgeGated_count b r) = m_state b"
  "m_pressed (EdgeGated_count b r) = False"
  "m_released (EdgeGated_count b r) = False"
  "hist (m_eng (EdgeGated_count b r)) = update_hist (hist (m_eng b)) r"
  by (simp_all add: EdgeGated_count_def Let_def)

lemma EdgeGated_count_record:
  "EdgeGated_count b r =
     b\<lparr>m_pressed := False, m_released := False, m_eng := m_eng (EdgeGated_count b r)\<rparr>"
  by (simp add: EdgeGated_count_def Let_def)

lemma accept_rule_frame:
  "m_cfg (accept_rule b) = m_cfg b"
  "m_eng (accept_rule b) = m_eng b"
  by (simp_all add: accept_rule_def Let_def)

lemma accept_rule_flags:
  "\<not> m_pressed b \<Longrightarrow> m_pressed (accept_rule b) = (\<not> m_state b \<and> m_state (accept_rule b))"
  "\<not> m_released b \<Longrightarrow> m_released (accept_rule b) = (m_state b \<and> \<not> m_state (accept_rule b))"
  by (simp_all add: accept_rule_def Let_def)

lemma accept_rule_excl:
  "\<not> m_pressed b \<Longrightarrow> \<not> m_released b \<Longrightarrow>
     \<not> (m_pressed (accept_rule b) \<and> m_released (accept_rule b))"
  by (simp add: accept_rule_def Let_def)

lemma length_alternating: "length (alternating first n) = n"
  by (induction n arbitrary: first) simp_all

lemma EdgeGated_run_snoc: "EdgeGated_run b (cs @ [c]) = EdgeGated_call (EdgeGated_run b cs) c"
  by (simp add: EdgeGated_run_def)

lemma Integrator_update_fields:
  "m_cfg (Integrator_update b r) = m_cfg b"
  "acc (m_eng (Integrator_update b r)) = Integrator_acc_step (m_cfg b) (acc (m_eng b)) r"
  "m_pressed (Integrator_update b r) =
     (\<not> m_state b \<and> integ_on (m_cfg b) \<le> Integrator_acc_step (m_cfg b) (acc (m_eng b)) r)"
  "m_released (Integrator_update b r) =
     (m_state b \<and> Integrator_acc_step (m_cfg b) (acc (m_eng b)) r \<le> integ_off (m_cfg b))"
  "m_state (Integrator_update b r) =
     (if m_state b then \<not> Integrator_acc_step (m_cfg b) (acc (m_eng b)) r \<le> integ_off (m_cfg b)
      else integ_on (m_cfg b) \<le> Integrator_acc_step (m_cfg b) (acc (m_eng b)) r)"
  by (simp_all add: Integrator_update_def Let_def)

lemma Integrator_reset_fields:
  "m_cfg (Integrator_reset b d) = m_cfg b"
  "acc (m_eng (Integrator_reset b d)) = (if d then integ_max (m_cfg b) else 0)"
  "m_pressed (Integrator_reset b d) = False"
  "m_released (Integrator_reset b d) = False"
  "m_state (Integrator_reset b d) = d"
  by (simp_all add: Integrator_reset_def)

section \<open>The mask and the shift register, bit by bit\<close>

lemma ucast_pow_minus: "k < 8 \<Longrightarrow> (ucast (2 ^ k - 1 :: 32 word) :: 8 word) = mask k"
proof -
  assume k: "k < 8"
  have "(2 ^ k - 1 :: 32 word) = mask k"
    by (simp add: mask_eq_exp_minus_1)
  moreover have "(ucast (mask k :: 32 word) :: 8 word) = mask k"
    using k by (intro bit_word_eqI) (auto simp add: bit_simps)
  ultimately show ?thesis by simp
qed

text \<open>The mask has the low \<open>min 8 n\<close> bits set: \<open>n > 8\<close> is clamped to 8.\<close>

lemma consec_mask_eq: "consec_mask n = mask (min 8 (unat n))"
proof (cases "8 \<le> n")
  case True
  then have "8 \<le> unat n" by (simp add: word_le_nat_alt)
  then have "min 8 (unat n) = 8" by simp
  with True show ?thesis by (simp add: consec_mask_def mask_eq_exp_minus_1)
next
  case False
  then have "unat n < 8" by (simp add: word_le_nat_alt not_le)
  with False show ?thesis by (simp add: consec_mask_def ucast_pow_minus min_def)
qed

lemma consec_mask_0: "consec_mask 0 = 0"
  by (simp add: consec_mask_def)

lemma bit_update_hist:
  "bit (update_hist h r) i = ((i = 0 \<and> r) \<or> (0 < i \<and> i < 8 \<and> bit h (i - 1)))"
  unfolding update_hist_def
  apply (simp only: bit_ucast_iff bit_or_iff bit_push_bit_iff)
  apply (cases r)
   apply (auto simp add: bit_simps bit_0 bit_1_iff)
  done

lemma and_mask_all: "((h :: 8 word) AND mask k = mask k) = (\<forall>i<k. i < 8 \<longrightarrow> bit h i)"
  by (auto simp add: bit_eq_iff bit_simps)

lemma and_mask_none: "((h :: 8 word) AND mask k = 0) = (\<forall>i<k. i < 8 \<longrightarrow> \<not> bit h i)"
  by (auto simp add: bit_eq_iff bit_simps)

lemma all_pressed_iff:
  "(h AND consec_mask n = consec_mask n) = (\<forall>i < min 8 (unat n). bit h i)"
  by (auto simp add: consec_mask_eq and_mask_all)

lemma all_released_iff:
  "(h AND consec_mask n = 0) = (\<forall>i < min 8 (unat n). \<not> bit h i)"
  by (auto simp add: consec_mask_eq and_mask_none)

lemma update_hist_FF: "update_hist 0xFF True = 0xFF"
  by (simp add: update_hist_def)

lemma FF_not_all_released:
  assumes "n \<noteq> 0"
  shows "(0xFF :: u8) AND consec_mask n \<noteq> 0"
proof -
  from assms have "0 < unat n" by (simp add: unat_gt_0)
  then have "0 < min 8 (unat n)" by simp
  moreover have "bit (0xFF :: u8) 0" by (simp add: bit_0)
  ultimately have "\<exists>i < min 8 (unat n). bit (0xFF :: u8) i" by blast
  then show ?thesis by (simp only: all_released_iff) blast
qed

section \<open>Edge-gated engine: timeout and gating\<close>

text \<open>
  Claim C1.  In the edge-gated engine, on a tick where \<open>unstable\<close>, as counted this
  tick, has reached \<open>unstable_timeout\<close>, \<open>update\<close> leaves the object as it found it
  but for: both one-shot flags false, \<open>hist\<close> forced to \<open>0xFF\<close> when the debounced
  state is pressed and to \<open>0x00\<close> when it is released, and \<open>unstable\<close> and
  \<open>bounce_k\<close> zero.  The acceptance rule is not evaluated: the debounced state is
  the one before the call.
\<close>

theorem EdgeGated_timeout_recenter:
  assumes "unstable_timeout (m_cfg b) \<le> unstable (m_eng (EdgeGated_count b raw_down))"
  shows "EdgeGated_update b raw_down =
           b\<lparr>m_pressed := False, m_released := False,
             m_eng := \<lparr>hist = (if down b then 0xFF else 0x00), unstable = 0, bounce_k = 0\<rparr>\<rparr>
         \<and> History_history (EdgeGated_update b raw_down) = (if down b then 0xFF else 0x00)
         \<and> unstable (m_eng (EdgeGated_update b raw_down)) = 0
         \<and> bounce_k (m_eng (EdgeGated_update b raw_down)) = 0
         \<and> down (EdgeGated_update b raw_down) = down b
         \<and> \<not> pressed (EdgeGated_update b raw_down)
         \<and> \<not> released (EdgeGated_update b raw_down)"
proof -
  let ?c = "EdgeGated_count b raw_down"
  have "EdgeGated_update b raw_down =
          ?c\<lparr>m_eng := \<lparr>hist = (if m_state ?c then 0xFF else 0x00), unstable = 0, bounce_k = 0\<rparr>\<rparr>"
    using assms by (simp add: EdgeGated_update_def Let_def EdgeGated_count_frame)
  also have "\<dots> = b\<lparr>m_pressed := False, m_released := False,
             m_eng := \<lparr>hist = (if down b then 0xFF else 0x00), unstable = 0, bounce_k = 0\<rparr>\<rparr>"
    by (subst EdgeGated_count_record) (simp add: EdgeGated_count_frame down_def)
  finally show ?thesis
    by (simp add: accessor_defs History_history_def)
qed

theorem EdgeGated_timeout_recenter_witness:
  "unstable_timeout (m_cfg chatter_example)
     \<le> unstable (m_eng (EdgeGated_count chatter_example False))
   \<and> EdgeGated_update chatter_example False =
       chatter_example\<lparr>m_pressed := False, m_released := False,
         m_eng := \<lparr>hist = (if down chatter_example then 0xFF else 0x00), unstable = 0, bounce_k = 0\<rparr>\<rparr>
   \<and> History_history (EdgeGated_update chatter_example False) = 0xFF
   \<and> down (EdgeGated_update chatter_example False)
   \<and> \<not> pressed (EdgeGated_update chatter_example False)
   \<and> \<not> released (EdgeGated_update chatter_example False)"
proof -
  have h: "unstable_timeout (m_cfg chatter_example)
             \<le> unstable (m_eng (EdgeGated_count chatter_example False))"
    by code_simp
  have d: "down chatter_example"
    by (simp add: down_def chatter_example_def)
  from EdgeGated_timeout_recenter [OF h] h d show ?thesis
    by (simp add: accessor_defs History_history_def)
qed

lemma EdgeGated_gate_step:
  assumes "EdgeGated_bouncing b raw_down"
  shows "\<not> pressed (EdgeGated_update b raw_down) \<and> \<not> released (EdgeGated_update b raw_down)
         \<and> down (EdgeGated_update b raw_down) = down b"
  using assms
  by (simp add: EdgeGated_bouncing_def EdgeGated_update_def Let_def EdgeGated_count_frame
      accessor_defs)

text \<open>
  Claim C2.  In the edge-gated engine, on a tick where chatter is confirmed
  (\<open>bounce_k\<close>, as counted this tick, has reached \<open>bounce_confirm\<close>), neither
  \<open>pressed\<close> nor \<open>released\<close> fires and the debounced level stays what it was.  In
  particular this holds on every tick of an alternating input
  \<open>true, false, true, ...\<close> (or \<open>false, true, ...\<close>) on which chatter is confirmed,
  from any starting object and for an input of any length \<open>n\<close>, so also for
  \<open>n \<ge> edge_threshold\<close>: tick \<open>k + 1\<close> of the input produces no transition when
  chatter is confirmed on it.
\<close>

theorem EdgeGated_confirmed_chatter_gates:
  "(EdgeGated_bouncing b raw_down \<longrightarrow>
      \<not> pressed (EdgeGated_update b raw_down) \<and> \<not> released (EdgeGated_update b raw_down)
      \<and> down (EdgeGated_update b raw_down) = down b)
   \<and> (k < n \<and> EdgeGated_bouncing (EdgeGated_run b0 (map Update (take k (alternating first n))))
                  (alternating first n ! k) \<longrightarrow>
      \<not> pressed (EdgeGated_run b0 (map Update (take (Suc k) (alternating first n))))
      \<and> \<not> released (EdgeGated_run b0 (map Update (take (Suc k) (alternating first n))))
      \<and> down (EdgeGated_run b0 (map Update (take (Suc k) (alternating first n))))
          = down (EdgeGated_run b0 (map Update (take k (alternating first n)))))"
proof (rule conjI; rule impI)
  assume "EdgeGated_bouncing b raw_down"
  then show "\<not> pressed (EdgeGated_update b raw_down) \<and> \<not> released (EdgeGated_update b raw_down)
      \<and> down (EdgeGated_update b raw_down) = down b"
    by (rule EdgeGated_gate_step)
next
  let ?xs = "alternating first n"
  let ?pre = "EdgeGated_run b0 (map Update (take k ?xs))"
  assume a: "k < n \<and> EdgeGated_bouncing ?pre (?xs ! k)"
  then have "take (Suc k) ?xs = take k ?xs @ [?xs ! k]"
    by (simp add: take_Suc_conv_app_nth length_alternating)
  then have "EdgeGated_run b0 (map Update (take (Suc k) ?xs)) = EdgeGated_update ?pre (?xs ! k)"
    by (simp add: EdgeGated_run_snoc)
  with a show "\<not> pressed (EdgeGated_run b0 (map Update (take (Suc k) ?xs)))
      \<and> \<not> released (EdgeGated_run b0 (map Update (take (Suc k) ?xs)))
      \<and> down (EdgeGated_run b0 (map Update (take (Suc k) ?xs))) = down ?pre"
    by (simp add: EdgeGated_gate_step)
qed

theorem EdgeGated_confirmed_chatter_gates_witness:
  "EdgeGated_bouncing gated_example False
   \<and> \<not> pressed (EdgeGated_update gated_example False)
   \<and> \<not> released (EdgeGated_update gated_example False)
   \<and> down (EdgeGated_update gated_example False) = down gated_example
   \<and> (3::nat) < 4
   \<and> EdgeGated_bouncing
        (EdgeGated_run (History_construct default_Config) (map Update (take 3 (alternating True 4))))
        (alternating True 4 ! 3)
   \<and> \<not> pressed (EdgeGated_run (History_construct default_Config)
                   (map Update (take (Suc 3) (alternating True 4))))
   \<and> \<not> released (EdgeGated_run (History_construct default_Config)
                   (map Update (take (Suc 3) (alternating True 4))))
   \<and> down (EdgeGated_run (History_construct default_Config)
               (map Update (take (Suc 3) (alternating True 4))))
       = down (EdgeGated_run (History_construct default_Config)
               (map Update (take 3 (alternating True 4))))"
proof -
  have h1: "EdgeGated_bouncing gated_example False"
    by code_simp
  have h2: "(3::nat) < 4 \<and> EdgeGated_bouncing
        (EdgeGated_run (History_construct default_Config) (map Update (take 3 (alternating True 4))))
        (alternating True 4 ! 3)"
    by code_simp
  from EdgeGated_confirmed_chatter_gates
         [of gated_example False 3 4 "History_construct default_Config" True] h1 h2
  show ?thesis by blast
qed

section \<open>One-shot flags\<close>

text \<open>
  Claim C4.  In every engine, from every object and for every raw sample:
  \<open>pressed()\<close> is true after \<open>update\<close> exactly when \<open>down()\<close> was false before
  the call and is true after it, and \<open>released()\<close> is true after \<open>update\<close> exactly
  when \<open>down()\<close> was true before the call and is false after it.  So a flag is
  true only on the tick of its transition of the debounced level.
\<close>

theorem flags_iff_transition:
  "pressed (Integrator_update bi raw_down) = (\<not> down bi \<and> down (Integrator_update bi raw_down))
   \<and> released (Integrator_update bi raw_down) = (down bi \<and> \<not> down (Integrator_update bi raw_down))
   \<and> pressed (Consecutive_update bh raw_down) = (\<not> down bh \<and> down (Consecutive_update bh raw_down))
   \<and> released (Consecutive_update bh raw_down) = (down bh \<and> \<not> down (Consecutive_update bh raw_down))
   \<and> pressed (EdgeGated_update bh raw_down) = (\<not> down bh \<and> down (EdgeGated_update bh raw_down))
   \<and> released (EdgeGated_update bh raw_down) = (down bh \<and> \<not> down (EdgeGated_update bh raw_down))"
proof -
  have i: "pressed (Integrator_update bi raw_down) = (\<not> down bi \<and> down (Integrator_update bi raw_down))"
    "released (Integrator_update bi raw_down) = (down bi \<and> \<not> down (Integrator_update bi raw_down))"
    by (simp_all add: Integrator_update_def Let_def accessor_defs)
  have c: "pressed (Consecutive_update bh raw_down) = (\<not> down bh \<and> down (Consecutive_update bh raw_down))"
    "released (Consecutive_update bh raw_down) = (down bh \<and> \<not> down (Consecutive_update bh raw_down))"
    by (simp_all add: Consecutive_update_def Let_def accessor_defs accept_rule_flags)
  have e: "pressed (EdgeGated_update bh raw_down) = (\<not> down bh \<and> down (EdgeGated_update bh raw_down))"
    "released (EdgeGated_update bh raw_down) = (down bh \<and> \<not> down (EdgeGated_update bh raw_down))"
    by (simp_all add: EdgeGated_update_def Let_def accessor_defs accept_rule_flags
        EdgeGated_count_frame)
  from i c e show ?thesis by blast
qed

lemma Integrator_update_excl:
  "\<not> (m_pressed (Integrator_update b r) \<and> m_released (Integrator_update b r))"
  by (simp add: Integrator_update_def Let_def)

lemma Consecutive_update_excl:
  "\<not> (m_pressed (Consecutive_update b r) \<and> m_released (Consecutive_update b r))"
  by (simp add: Consecutive_update_def Let_def accept_rule_excl)

lemma EdgeGated_update_excl:
  "\<not> (m_pressed (EdgeGated_update b r) \<and> m_released (EdgeGated_update b r))"
  using accept_rule_excl [of "EdgeGated_count b r"]
  by (simp add: EdgeGated_update_def Let_def EdgeGated_count_frame)

lemma Integrator_call_excl:
  "\<not> (m_pressed (Integrator_call b c) \<and> m_released (Integrator_call b c))"
  by (cases c) (simp_all add: Integrator_update_excl Integrator_reset_def)

lemma Consecutive_call_excl:
  "\<not> (m_pressed (Consecutive_call b c) \<and> m_released (Consecutive_call b c))"
  by (cases c) (simp_all add: Consecutive_update_excl History_reset_def)

lemma EdgeGated_call_excl:
  "\<not> (m_pressed (EdgeGated_call b c) \<and> m_released (EdgeGated_call b c))"
  by (cases c) (simp_all add: EdgeGated_update_excl History_reset_def)

text \<open>
  Claim C5.  In every engine, for every \<open>Config\<close> and after every sequence of
  \<open>update\<close> and \<open>reset\<close> calls on a constructed object (the empty sequence
  included), \<open>pressed()\<close> and \<open>released()\<close> are not both true.
\<close>

theorem flags_never_both:
  "\<not> (pressed (Integrator_run (Integrator_construct cfg) cs)
        \<and> released (Integrator_run (Integrator_construct cfg) cs))
   \<and> \<not> (pressed (Consecutive_run (History_construct_from junk cfg) cs)
        \<and> released (Consecutive_run (History_construct_from junk cfg) cs))
   \<and> \<not> (pressed (EdgeGated_run (History_construct_from junk cfg) cs)
        \<and> released (EdgeGated_run (History_construct_from junk cfg) cs))"
proof (cases cs rule: rev_cases)
  case Nil
  then show ?thesis
    by (simp add: Integrator_run_def Consecutive_run_def EdgeGated_run_def accessor_defs
        Integrator_construct_def History_construct_from_def Integrator_reset_def History_reset_def)
next
  case (snoc cs' c)
  then show ?thesis
    by (simp add: Integrator_run_def Consecutive_run_def EdgeGated_run_def accessor_defs
        Integrator_call_excl Consecutive_call_excl EdgeGated_call_excl)
qed

section \<open>Construction\<close>

text \<open>
  Claim C10.  For every \<open>Config\<close>, a constructed object of every engine is released
  before any \<open>update\<close>: \<open>down()\<close> false, \<open>up()\<close> true, \<open>pressed()\<close> and
  \<open>released()\<close> false, \<open>history()\<close> zero.  The history engines (consecutive and
  edge-gated, whose constructor and \<open>reset\<close> have the same text) reach this state
  whatever the union's unset bytes held.
\<close>

theorem constructed_released:
  "\<not> down (Integrator_construct cfg) \<and> up (Integrator_construct cfg)
   \<and> \<not> pressed (Integrator_construct cfg) \<and> \<not> released (Integrator_construct cfg)
   \<and> Integrator_history (Integrator_construct cfg) = 0
   \<and> \<not> down (History_construct_from junk cfg) \<and> up (History_construct_from junk cfg)
   \<and> \<not> pressed (History_construct_from junk cfg) \<and> \<not> released (History_construct_from junk cfg)
   \<and> History_history (History_construct_from junk cfg) = 0"
  by (simp add: accessor_defs Integrator_construct_def History_construct_from_def
      Integrator_reset_def History_reset_def Integrator_history_def History_history_def)

section \<open>Consecutive engine\<close>

text \<open>
  Claim C8.  In the consecutive engine with \<open>consec_n = 0\<close> the mask is 0, both
  \<open>all_pressed\<close> and \<open>all_released\<close> hold, and every \<open>update\<close> makes a
  transition whatever the raw sample: \<open>pressed\<close> fires when the debounced state
  was released, \<open>released\<close> when it was pressed.  The call is defined: it returns
  the object with the level flipped and the sample shifted into \<open>hist\<close>.
\<close>

theorem Consecutive_n0_always_transitions:
  assumes "consec_n (m_cfg b) = 0"
  shows "consec_mask (consec_n (m_cfg b)) = 0
         \<and> Consecutive_update b raw_down =
           b\<lparr>m_state := \<not> down b, m_pressed := \<not> down b, m_released := down b,
             m_eng := (m_eng b)\<lparr>hist := update_hist (hist (m_eng b)) raw_down\<rparr>\<rparr>
         \<and> pressed (Consecutive_update b raw_down) = (\<not> down b)
         \<and> released (Consecutive_update b raw_down) = down b
         \<and> down (Consecutive_update b raw_down) = (\<not> down b)"
  using assms
  by (simp add: Consecutive_update_def accept_rule_def Let_def consec_mask_0 accessor_defs)

theorem Consecutive_n0_always_transitions_witness:
  "consec_n (m_cfg (History_construct (default_Config\<lparr>consec_n := 0\<rparr>))) = 0
   \<and> pressed (Consecutive_update (History_construct (default_Config\<lparr>consec_n := 0\<rparr>)) False)
   \<and> \<not> released (Consecutive_update (History_construct (default_Config\<lparr>consec_n := 0\<rparr>)) False)
   \<and> down (Consecutive_update (History_construct (default_Config\<lparr>consec_n := 0\<rparr>)) False)"
proof -
  let ?b = "History_construct (default_Config\<lparr>consec_n := 0\<rparr>)"
  have h: "consec_n (m_cfg ?b) = 0"
    by (simp add: History_construct_def History_construct_from_def History_reset_def)
  have d: "\<not> down ?b"
    by (simp add: History_construct_def History_construct_from_def History_reset_def down_def)
  from Consecutive_n0_always_transitions [OF h, of False] h d show ?thesis
    by (simp add: accessor_defs)
qed

section \<open>Integrator engine: the default thresholds\<close>

text \<open>
  Claim C6.  In the integrator engine with \<open>integ_max = 6\<close>, \<open>integ_on = 4\<close> and
  \<open>integ_off = 2\<close>, after \<open>reset(false)\<close>: of four \<open>update(true)\<close> calls the first
  three leave \<open>pressed()\<close> false and the fourth makes it true; of two
  \<open>update(false)\<close> calls that follow, the first leaves \<open>released()\<close> false and the
  second makes it true.
\<close>

theorem Integrator_scenario_6_4_2:
  assumes "integ_max (m_cfg b) = 6" and "integ_on (m_cfg b) = 4" and "integ_off (m_cfg b) = 2"
  shows "\<not> pressed (Integrator_run (Integrator_reset b False) (map Update [True]))
       \<and> \<not> pressed (Integrator_run (Integrator_reset b False) (map Update [True, True]))
       \<and> \<not> pressed (Integrator_run (Integrator_reset b False) (map Update [True, True, True]))
       \<and> pressed (Integrator_run (Integrator_reset b False) (map Update [True, True, True, True]))
       \<and> \<not> released (Integrator_run (Integrator_reset b False)
                        (map Update [True, True, True, True, False]))
       \<and> released (Integrator_run (Integrator_reset b False)
                      (map Update [True, True, True, True, False, False]))"
proof -
  let ?s0 = "Integrator_reset b False"
  let ?s1 = "Integrator_update ?s0 True"
  let ?s2 = "Integrator_update ?s1 True"
  let ?s3 = "Integrator_update ?s2 True"
  let ?s4 = "Integrator_update ?s3 True"
  let ?s5 = "Integrator_update ?s4 False"
  let ?s6 = "Integrator_update ?s5 False"
  note cfg = Integrator_update_fields(1) Integrator_reset_fields(1) Integrator_acc_step_def assms
    word_le_nat_alt
  have s1: "acc (m_eng ?s1) = 1" "\<not> m_state ?s1" "\<not> m_pressed ?s1"
    by (simp_all add: Integrator_update_fields(2,3,5) [of ?s0] Integrator_reset_fields cfg)
  have s2: "acc (m_eng ?s2) = 2" "\<not> m_state ?s2" "\<not> m_pressed ?s2"
    by (simp_all add: Integrator_update_fields(2,3,5) [of ?s1] s1 cfg)
  have s3: "acc (m_eng ?s3) = 3" "\<not> m_state ?s3" "\<not> m_pressed ?s3"
    by (simp_all add: Integrator_update_fields(2,3,5) [of ?s2] s2 cfg)
  have s4: "acc (m_eng ?s4) = 4" "m_state ?s4" "m_pressed ?s4"
    by (simp_all add: Integrator_update_fields(2,3,5) [of ?s3] s3 cfg)
  have s5: "acc (m_eng ?s5) = 3" "m_state ?s5" "\<not> m_released ?s5"
    by (simp_all add: Integrator_update_fields(2,4,5) [of ?s4] s4 cfg)
  have s6: "m_released ?s6"
    by (simp add: Integrator_update_fields(4) [of ?s5] s5 cfg)
  from s1 s2 s3 s4 s5 s6 show ?thesis
    by (simp add: Integrator_run_def accessor_defs)
qed

theorem Integrator_scenario_6_4_2_witness:
  "integ_max (m_cfg (Integrator_construct default_Config)) = 6
   \<and> integ_on (m_cfg (Integrator_construct default_Config)) = 4
   \<and> integ_off (m_cfg (Integrator_construct default_Config)) = 2
   \<and> \<not> pressed (Integrator_run (Integrator_reset (Integrator_construct default_Config) False)
                   (map Update [True, True, True]))
   \<and> pressed (Integrator_run (Integrator_reset (Integrator_construct default_Config) False)
                 (map Update [True, True, True, True]))
   \<and> \<not> released (Integrator_run (Integrator_reset (Integrator_construct default_Config) False)
                    (map Update [True, True, True, True, False]))
   \<and> released (Integrator_run (Integrator_reset (Integrator_construct default_Config) False)
                  (map Update [True, True, True, True, False, False]))"
proof -
  let ?b = "Integrator_construct default_Config"
  have h: "integ_max (m_cfg ?b) = 6" "integ_on (m_cfg ?b) = 4" "integ_off (m_cfg ?b) = 2"
    by (simp_all add: Integrator_construct_def Integrator_reset_def default_Config_def)
  from Integrator_scenario_6_4_2 [OF h] h show ?thesis
    by blast
qed

section \<open>Reset to pressed, then one pressed sample\<close>

text \<open>
  Claim C7, as amended.  \<open>reset(true)\<close> followed by one \<open>update(true)\<close> leaves
  \<open>down()\<close> true and both one-shot flags false
  \<^item> in the integrator engine exactly when \<open>integ_off < integ_max\<close>,
  \<^item> in the consecutive engine exactly when \<open>consec_n\<close> is not 0,
  \<^item> in the edge-gated engine whenever \<open>consec_n\<close> is not 0.
  The other fields of the \<open>Config\<close> are free.
\<close>

theorem settled_reset_true_update_true:
  "(down (Integrator_update (Integrator_reset bi True) True)
      \<and> \<not> pressed (Integrator_update (Integrator_reset bi True) True)
      \<and> \<not> released (Integrator_update (Integrator_reset bi True) True))
     = (integ_off (m_cfg bi) < integ_max (m_cfg bi))
   \<and> (down (Consecutive_update (History_reset bh True) True)
      \<and> \<not> pressed (Consecutive_update (History_reset bh True) True)
      \<and> \<not> released (Consecutive_update (History_reset bh True) True))
     = (consec_n (m_cfg bh) \<noteq> 0)
   \<and> (consec_n (m_cfg bh) \<noteq> 0 \<longrightarrow>
        down (EdgeGated_update (History_reset bh True) True)
      \<and> \<not> pressed (EdgeGated_update (History_reset bh True) True)
      \<and> \<not> released (EdgeGated_update (History_reset bh True) True))"
proof (intro conjI impI)
  show "(down (Integrator_update (Integrator_reset bi True) True)
      \<and> \<not> pressed (Integrator_update (Integrator_reset bi True) True)
      \<and> \<not> released (Integrator_update (Integrator_reset bi True) True))
     = (integ_off (m_cfg bi) < integ_max (m_cfg bi))"
    by (auto simp add: Integrator_update_def Integrator_reset_def Integrator_acc_step_def
        Let_def accessor_defs not_le)
next
  show "(down (Consecutive_update (History_reset bh True) True)
      \<and> \<not> pressed (Consecutive_update (History_reset bh True) True)
      \<and> \<not> released (Consecutive_update (History_reset bh True) True))
     = (consec_n (m_cfg bh) \<noteq> 0)"
    using FF_not_all_released [of "consec_n (m_cfg bh)"]
    by (auto simp add: Consecutive_update_def History_reset_def accept_rule_def Let_def
        accessor_defs update_hist_FF consec_mask_0)
next
  assume n: "consec_n (m_cfg bh) \<noteq> 0"
  let ?c = "EdgeGated_count (History_reset bh True) True"
  have c: "m_state ?c" "\<not> m_pressed ?c" "\<not> m_released ?c" "hist (m_eng ?c) = 0xFF"
    "consec_n (m_cfg ?c) = consec_n (m_cfg bh)"
    by (simp_all add: EdgeGated_count_frame History_reset_def update_hist_FF)
  have "accept_rule ?c = ?c"
    using c FF_not_all_released [OF n] by (simp add: accept_rule_def Let_def)
  with c show "down (EdgeGated_update (History_reset bh True) True)"
    "\<not> pressed (EdgeGated_update (History_reset bh True) True)"
    "\<not> released (EdgeGated_update (History_reset bh True) True)"
    by (simp_all add: EdgeGated_update_def Let_def accessor_defs)
qed

theorem settled_reset_true_update_true_witness:
  "integ_off (m_cfg (Integrator_construct default_Config))
     < integ_max (m_cfg (Integrator_construct default_Config))
   \<and> down (Integrator_update (Integrator_reset (Integrator_construct default_Config) True) True)
   \<and> \<not> pressed (Integrator_update (Integrator_reset (Integrator_construct default_Config) True) True)
   \<and> \<not> released (Integrator_update (Integrator_reset (Integrator_construct default_Config) True) True)
   \<and> consec_n (m_cfg (History_construct default_Config)) \<noteq> 0
   \<and> down (Consecutive_update (History_reset (History_construct default_Config) True) True)
   \<and> \<not> pressed (Consecutive_update (History_reset (History_construct default_Config) True) True)
   \<and> \<not> released (Consecutive_update (History_reset (History_construct default_Config) True) True)
   \<and> down (EdgeGated_update (History_reset (History_construct default_Config) True) True)
   \<and> \<not> pressed (EdgeGated_update (History_reset (History_construct default_Config) True) True)
   \<and> \<not> released (EdgeGated_update (History_reset (History_construct default_Config) True) True)"
proof -
  have h1: "integ_off (m_cfg (Integrator_construct default_Config))
              < integ_max (m_cfg (Integrator_construct default_Config))"
    by (simp add: Integrator_construct_def Integrator_reset_def default_Config_def)
  have h2: "consec_n (m_cfg (History_construct default_Config)) \<noteq> 0"
    by (simp add: History_construct_def History_construct_from_def History_reset_def
        default_Config_def)
  from settled_reset_true_update_true
         [of "Integrator_construct default_Config" "History_construct default_Config"] h1 h2
  show ?thesis by blast
qed

text \<open>
  The claim for every \<open>Config\<close> fails: with \<open>integ_off = integ_max = 6\<close> the
  integrator engine, and with \<open>consec_n = 0\<close> the consecutive and the edge-gated
  engine, answer \<open>reset(true)\<close>, \<open>update(true)\<close> with a release.
\<close>

theorem settled_reset_true_update_true_counterexample:
  "\<not> down (Integrator_update (Integrator_reset (Integrator_construct off_at_max_Config) True) True)
   \<and> released (Integrator_update (Integrator_reset (Integrator_construct off_at_max_Config) True) True)
   \<and> \<not> down (Consecutive_update (History_reset (History_construct n0_Config) True) True)
   \<and> released (Consecutive_update (History_reset (History_construct n0_Config) True) True)
   \<and> \<not> down (EdgeGated_update (History_reset (History_construct n0_Config) True) True)
   \<and> released (EdgeGated_update (History_reset (History_construct n0_Config) True) True)"
  by code_simp

section \<open>Saturating counters\<close>

lemma u8_inc_uint: "(x :: u8) < y \<Longrightarrow> uint (x + 1) = uint x + 1"
  by uint_arith

lemma u8_dec_uint: "0 < (x :: u8) \<Longrightarrow> uint (x - 1) = uint x - 1"
  by uint_arith

lemma u8_sat_inc: "uint (if (x :: u8) < 255 then x + 1 else x) = min 255 (uint x + 1)"
proof (cases "x < 255")
  case True
  then have "uint x < 255" by (simp add: word_less_def)
  with u8_inc_uint [OF True] True show ?thesis by simp
next
  case False
  then have "255 \<le> uint x" by (simp add: word_less_def not_less)
  moreover have "uint x < 256" using uint_lt2p [of x] by simp
  ultimately show ?thesis using False by simp
qed

lemma Integrator_acc_step_uint:
  "uint (Integrator_acc_step cfg a r) =
     (if r then (if a < integ_max cfg then uint a + 1 else uint a)
      else (if 0 < a then uint a - 1 else uint a))"
  by (simp add: Integrator_acc_step_def u8_inc_uint u8_dec_uint)

lemma Integrator_acc_step_le:
  assumes "a \<le> integ_max cfg"
  shows "Integrator_acc_step cfg a r \<le> integ_max cfg"
  using assms
  by (simp add: word_le_def Integrator_acc_step_uint word_less_def)


lemma EdgeGated_count_bounce_k_word:
  "bounce_k (m_eng (EdgeGated_count b r)) =
     (if EdgeGated_bouncing_now b r
      then (if bounce_k (m_eng b) < 255 then bounce_k (m_eng b) + 1 else bounce_k (m_eng b))
      else 0)"
  by (simp add: EdgeGated_count_def EdgeGated_bouncing_now_def Let_def)

lemma EdgeGated_count_unstable_word:
  "unstable (m_eng (EdgeGated_count b r)) =
     (if EdgeGated_bouncing b r
      then (if unstable (m_eng b) < 255 then unstable (m_eng b) + 1 else unstable (m_eng b))
      else 0)"
  by (simp add: EdgeGated_bouncing_def EdgeGated_count_def Let_def)

lemma EdgeGated_count_bounce_k:
  "uint (bounce_k (m_eng (EdgeGated_count b r))) =
     (if EdgeGated_bouncing_now b r then min 255 (uint (bounce_k (m_eng b)) + 1) else 0)"
proof (cases "EdgeGated_bouncing_now b r")
  case True
  then have "bounce_k (m_eng (EdgeGated_count b r)) =
      (if bounce_k (m_eng b) < 255 then bounce_k (m_eng b) + 1 else bounce_k (m_eng b))"
    by (simp only: EdgeGated_count_bounce_k_word if_True)
  then have "uint (bounce_k (m_eng (EdgeGated_count b r))) = min 255 (uint (bounce_k (m_eng b)) + 1)"
    by (simp only: u8_sat_inc)
  with True show ?thesis by (simp only: if_True)
next
  case False
  then show ?thesis by (simp add: EdgeGated_count_bounce_k_word)
qed

lemma EdgeGated_count_unstable:
  "uint (unstable (m_eng (EdgeGated_count b r))) =
     (if EdgeGated_bouncing b r then min 255 (uint (unstable (m_eng b)) + 1) else 0)"
proof (cases "EdgeGated_bouncing b r")
  case True
  then have "unstable (m_eng (EdgeGated_count b r)) =
      (if unstable (m_eng b) < 255 then unstable (m_eng b) + 1 else unstable (m_eng b))"
    by (simp only: EdgeGated_count_unstable_word if_True)
  then have "uint (unstable (m_eng (EdgeGated_count b r))) = min 255 (uint (unstable (m_eng b)) + 1)"
    by (simp only: u8_sat_inc)
  with True show ?thesis by (simp only: if_True)
next
  case False
  then show ?thesis by (simp add: EdgeGated_count_unstable_word)
qed

lemma EdgeGated_update_counters:
  "bounce_k (m_eng (EdgeGated_update b r)) =
     (if unstable_timeout (m_cfg b) \<le> unstable (m_eng (EdgeGated_count b r)) then 0
      else bounce_k (m_eng (EdgeGated_count b r)))"
  "unstable (m_eng (EdgeGated_update b r)) =
     (if unstable_timeout (m_cfg b) \<le> unstable (m_eng (EdgeGated_count b r)) then 0
      else unstable (m_eng (EdgeGated_count b r)))"
  by (simp_all add: EdgeGated_update_def Let_def EdgeGated_count_frame accept_rule_frame)

lemma Integrator_call_cfg: "m_cfg (Integrator_call b c) = m_cfg b"
  by (cases c) (simp_all add: Integrator_update_fields Integrator_reset_fields)

lemma Integrator_run_cfg: "m_cfg (Integrator_run b cs) = m_cfg b"
  unfolding Integrator_run_def
  by (induction cs arbitrary: b) (simp_all add: Integrator_call_cfg)

lemma Integrator_call_acc_le:
  assumes "acc (m_eng b) \<le> integ_max (m_cfg b)"
  shows "acc (m_eng (Integrator_call b c)) \<le> integ_max (m_cfg b)"
  using assms
  by (cases c) (simp_all add: Integrator_update_fields Integrator_reset_fields Integrator_acc_step_le)

lemma Integrator_run_acc_le:
  assumes "acc (m_eng b) \<le> integ_max (m_cfg b)"
  shows "acc (m_eng (Integrator_run b cs)) \<le> integ_max (m_cfg b)"
  using assms unfolding Integrator_run_def
proof (induction cs arbitrary: b)
  case Nil
  then show ?case by simp
next
  case (Cons c cs)
  from Cons.prems have "acc (m_eng (Integrator_call b c)) \<le> integ_max (m_cfg (Integrator_call b c))"
    by (simp add: Integrator_call_acc_le Integrator_call_cfg)
  from Cons.IH [OF this] show ?case
    by (simp add: Integrator_call_cfg)
qed

text \<open>
  Claim C9.  The counters saturate and never wrap.  Integrator: \<open>acc\<close> is at most
  \<open>integ_max\<close> after \<open>reset\<close>, every \<open>update\<close> keeps it so, hence it is so after
  every sequence of calls on a constructed object; and the new \<open>acc\<close>, read as an
  integer, is the old one plus one (only when \<open>acc < integ_max\<close>), minus one (only
  when \<open>acc > 0\<close>) or unchanged, so neither \<open>++\<close> nor \<open>--\<close> wraps.  Edge-gated:
  read as integers, \<open>bounce_k\<close> and \<open>unstable\<close> after the counting are
  \<open>min 255 (old + 1)\<close> or 0, and \<open>update\<close> returns them so or zeroed by the
  timeout: the guarded increments never pass 255.
\<close>

theorem counters_saturate:
  "acc (m_eng (Integrator_reset bi start_down)) \<le> integ_max (m_cfg bi)
   \<and> (acc (m_eng bi) \<le> integ_max (m_cfg bi) \<longrightarrow>
        acc (m_eng (Integrator_update bi raw_down)) \<le> integ_max (m_cfg bi))
   \<and> acc (m_eng (Integrator_run (Integrator_construct cfg) cs)) \<le> integ_max cfg
   \<and> uint (acc (m_eng (Integrator_update bi raw_down))) =
       (if raw_down
        then (if acc (m_eng bi) < integ_max (m_cfg bi)
              then uint (acc (m_eng bi)) + 1 else uint (acc (m_eng bi)))
        else (if 0 < acc (m_eng bi) then uint (acc (m_eng bi)) - 1 else uint (acc (m_eng bi))))
   \<and> uint (bounce_k (m_eng (EdgeGated_count bh raw_down))) =
       (if EdgeGated_bouncing_now bh raw_down then min 255 (uint (bounce_k (m_eng bh)) + 1) else 0)
   \<and> uint (unstable (m_eng (EdgeGated_count bh raw_down))) =
       (if EdgeGated_bouncing bh raw_down then min 255 (uint (unstable (m_eng bh)) + 1) else 0)
   \<and> bounce_k (m_eng (EdgeGated_update bh raw_down)) =
       (if unstable_timeout (m_cfg bh) \<le> unstable (m_eng (EdgeGated_count bh raw_down)) then 0
        else bounce_k (m_eng (EdgeGated_count bh raw_down)))
   \<and> unstable (m_eng (EdgeGated_update bh raw_down)) =
       (if unstable_timeout (m_cfg bh) \<le> unstable (m_eng (EdgeGated_count bh raw_down)) then 0
        else unstable (m_eng (EdgeGated_count bh raw_down)))"
proof -
  have r: "acc (m_eng (Integrator_reset bi start_down)) \<le> integ_max (m_cfg bi)"
    by (simp add: Integrator_reset_fields)
  have u: "acc (m_eng bi) \<le> integ_max (m_cfg bi) \<longrightarrow>
        acc (m_eng (Integrator_update bi raw_down)) \<le> integ_max (m_cfg bi)"
    by (simp add: Integrator_update_fields Integrator_acc_step_le)
  have "acc (m_eng (Integrator_construct cfg)) \<le> integ_max (m_cfg (Integrator_construct cfg))"
    by (simp add: Integrator_construct_def Integrator_reset_fields)
  then have "acc (m_eng (Integrator_run (Integrator_construct cfg) cs))
               \<le> integ_max (m_cfg (Integrator_construct cfg))"
    by (rule Integrator_run_acc_le)
  then have s: "acc (m_eng (Integrator_run (Integrator_construct cfg) cs)) \<le> integ_max cfg"
    by (simp add: Integrator_construct_def Integrator_reset_fields)
  have n: "uint (acc (m_eng (Integrator_update bi raw_down))) =
       (if raw_down
        then (if acc (m_eng bi) < integ_max (m_cfg bi)
              then uint (acc (m_eng bi)) + 1 else uint (acc (m_eng bi)))
        else (if 0 < acc (m_eng bi) then uint (acc (m_eng bi)) - 1 else uint (acc (m_eng bi))))"
    by (simp only: Integrator_update_fields Integrator_acc_step_uint)
  from r u s n EdgeGated_count_bounce_k [of bh raw_down] EdgeGated_count_unstable [of bh raw_down]
    EdgeGated_update_counters [of bh raw_down]
  show ?thesis by blast
qed

theorem counters_saturate_witness:
  "acc (m_eng (Integrator_construct default_Config))
     \<le> integ_max (m_cfg (Integrator_construct default_Config))
   \<and> acc (m_eng (Integrator_update (Integrator_construct default_Config) True))
     \<le> integ_max (m_cfg (Integrator_construct default_Config))
   \<and> uint (acc (m_eng (Integrator_update (Integrator_construct default_Config) True))) = 1
   \<and> uint (bounce_k (m_eng (EdgeGated_count chatter_example False))) = 2
   \<and> uint (unstable (m_eng (EdgeGated_count chatter_example False))) = 16"
proof -
  let ?b = "Integrator_construct default_Config"
  have h: "acc (m_eng ?b) \<le> integ_max (m_cfg ?b)"
    by (simp add: Integrator_construct_def Integrator_reset_def)
  have a: "acc (m_eng ?b) = 0" "acc (m_eng ?b) < integ_max (m_cfg ?b)"
    by (simp_all add: Integrator_construct_def Integrator_reset_def default_Config_def)
  have e: "EdgeGated_bouncing_now chatter_example False" "EdgeGated_bouncing chatter_example False"
    "bounce_k (m_eng chatter_example) = 1" "unstable (m_eng chatter_example) = 15"
    by code_simp+
  from counters_saturate [where bi = ?b and raw_down = True and bh = chatter_example]
  have 1: "acc (m_eng (Integrator_update ?b True)) \<le> integ_max (m_cfg ?b)"
    and 2: "uint (acc (m_eng (Integrator_update ?b True))) = 1"
    using h a by simp_all
  from counters_saturate [where bh = chatter_example and raw_down = False]
  have 3: "uint (bounce_k (m_eng (EdgeGated_count chatter_example False))) = 2"
    and 4: "uint (unstable (m_eng (EdgeGated_count chatter_example False))) = 16"
    using e by simp_all
  from h 1 2 3 4 show ?thesis by blast
qed

section \<open>Consecutive engine: a run of pressed samples\<close>

lemma Consecutive_update_fields:
  "m_cfg (Consecutive_update b r) = m_cfg b"
  "hist (m_eng (Consecutive_update b r)) = update_hist (hist (m_eng b)) r"
  "m_pressed (Consecutive_update b r) =
     (\<not> m_state b \<and> (\<forall>i < min 8 (unat (consec_n (m_cfg b))). bit (update_hist (hist (m_eng b)) r) i))"
  "m_state (Consecutive_update b r) =
     (if m_state b then \<not> (\<forall>i < min 8 (unat (consec_n (m_cfg b))). \<not> bit (update_hist (hist (m_eng b)) r) i)
      else (\<forall>i < min 8 (unat (consec_n (m_cfg b))). bit (update_hist (hist (m_eng b)) r) i))"
  by (auto simp add: Consecutive_update_def accept_rule_def Let_def all_pressed_iff all_released_iff)

lemma Consecutive_call_cfg: "m_cfg (Consecutive_call b c) = m_cfg b"
  by (cases c) (simp_all add: Consecutive_update_fields History_reset_def)

lemma Consecutive_run_cfg: "m_cfg (Consecutive_run b cs) = m_cfg b"
  unfolding Consecutive_run_def
  by (induction cs arbitrary: b) (simp_all add: Consecutive_call_cfg)

lemma Consecutive_run_replicate_Suc:
  "Consecutive_run b (replicate (Suc k) c) = Consecutive_call (Consecutive_run b (replicate k c)) c"
proof -
  have "replicate (Suc k) c = replicate k c @ [c]"
    by (simp add: replicate_append_same)
  then show ?thesis
    by (simp only: Consecutive_run_def foldl_append foldl_Cons foldl_Nil)
qed

lemma trailing_run_grow:
  assumes "trailing_run j b" and "Suc j < min 8 (unat (consec_n (m_cfg b)))"
  shows "trailing_run (Suc j) (Consecutive_update b True)"
    and "\<not> m_pressed (Consecutive_update b True)"
proof -
  let ?m = "min 8 (unat (consec_n (m_cfg b)))"
  let ?h = "update_hist (hist (m_eng b)) True"
  from assms have s: "\<not> m_state b" and ones: "\<forall>i<j. bit (hist (m_eng b)) i"
    and z: "\<not> bit (hist (m_eng b)) j"
    by (simp_all add: trailing_run_def)
  from z have "\<not> bit ?h (Suc j)" by (simp add: bit_update_hist)
  with assms(2) have np: "\<not> (\<forall>i < ?m. bit ?h i)" by blast
  have o: "\<forall>i<Suc j. bit ?h i"
  proof (intro allI impI)
    fix i assume "i < Suc j"
    with assms(2) ones show "bit ?h i"
      by (cases i) (simp_all add: bit_update_hist)
  qed
  from s np show "\<not> m_pressed (Consecutive_update b True)"
    by (simp add: Consecutive_update_fields)
  from s np o \<open>\<not> bit ?h (Suc j)\<close> show "trailing_run (Suc j) (Consecutive_update b True)"
    by (simp add: trailing_run_def Consecutive_update_fields)
qed

lemma trailing_run_fire:
  assumes "trailing_run j b" and "Suc j = min 8 (unat (consec_n (m_cfg b)))"
  shows "m_pressed (Consecutive_update b True)"
    and "m_state (Consecutive_update b True)"
    and "bit (hist (m_eng (Consecutive_update b True))) 0"
proof -
  let ?m = "min 8 (unat (consec_n (m_cfg b)))"
  let ?h = "update_hist (hist (m_eng b)) True"
  from assms have s: "\<not> m_state b" and ones: "\<forall>i<j. bit (hist (m_eng b)) i"
    by (simp_all add: trailing_run_def)
  have o: "\<forall>i < ?m. bit ?h i"
  proof (intro allI impI)
    fix i assume "i < ?m"
    then have "i < Suc j" and "i < 8" using assms(2) by simp_all
    with ones show "bit ?h i"
      by (cases i) (simp_all add: bit_update_hist)
  qed
  from s o show "m_pressed (Consecutive_update b True)" "m_state (Consecutive_update b True)"
    by (simp_all add: Consecutive_update_fields)
  show "bit (hist (m_eng (Consecutive_update b True))) 0"
    by (simp add: Consecutive_update_fields bit_update_hist)
qed

lemma held_stays:
  assumes "m_state b" and "consec_n (m_cfg b) \<noteq> 0"
  shows "\<not> m_pressed (Consecutive_update b True)"
    and "m_state (Consecutive_update b True)"
proof -
  let ?m = "min 8 (unat (consec_n (m_cfg b)))"
  let ?h = "update_hist (hist (m_eng b)) True"
  from assms(2) have "0 < ?m" by (simp add: unat_gt_0)
  moreover have "bit ?h 0" by (simp add: bit_update_hist)
  ultimately have "\<not> (\<forall>i < ?m. \<not> bit ?h i)" by blast
  with assms(1) show "\<not> m_pressed (Consecutive_update b True)" "m_state (Consecutive_update b True)"
    by (simp_all add: Consecutive_update_fields)
qed

lemma trailing_run_replicate:
  assumes "trailing_run 0 b" and "k < min 8 (unat (consec_n (m_cfg b)))"
  shows "trailing_run k (Consecutive_run b (replicate k (Update True)))
         \<and> (0 < k \<longrightarrow> \<not> m_pressed (Consecutive_run b (replicate k (Update True))))"
  using assms(2)
proof (induction k)
  case 0
  with assms(1) show ?case by (simp add: Consecutive_run_def)
next
  case (Suc k)
  let ?r = "Consecutive_run b (replicate k (Update True))"
  from Suc have t: "trailing_run k ?r" by simp
  from Suc.prems have "Suc k < min 8 (unat (consec_n (m_cfg ?r)))"
    by (simp only: Consecutive_run_cfg)
  from trailing_run_grow [OF t this] show ?case
    by (simp only: Consecutive_run_replicate_Suc Consecutive_call.simps) simp
qed

lemma trailing_run_fires:
  assumes "trailing_run 0 b" and "Suc j = min 8 (unat (consec_n (m_cfg b)))"
  shows "m_pressed (Consecutive_run b (replicate (Suc j) (Update True)))"
    and "m_state (Consecutive_run b (replicate (Suc j) (Update True)))"
proof -
  let ?r = "Consecutive_run b (replicate j (Update True))"
  from assms(2) have "j < min 8 (unat (consec_n (m_cfg b)))" by linarith
  with trailing_run_replicate [OF assms(1)] have t: "trailing_run j ?r" by blast
  from assms(2) have "Suc j = min 8 (unat (consec_n (m_cfg ?r)))"
    by (simp only: Consecutive_run_cfg)
  from trailing_run_fire [OF t this]
  show "m_pressed (Consecutive_run b (replicate (Suc j) (Update True)))"
    and "m_state (Consecutive_run b (replicate (Suc j) (Update True)))"
    by (simp_all only: Consecutive_run_replicate_Suc Consecutive_call.simps)
qed

lemma held_after_fire:
  assumes "trailing_run 0 b" and "Suc j = min 8 (unat (consec_n (m_cfg b)))" and "Suc j \<le> k"
  shows "m_state (Consecutive_run b (replicate k (Update True)))
         \<and> m_pressed (Consecutive_run b (replicate k (Update True))) = (k = Suc j)"
  using assms(3)
proof (induction k rule: dec_induct)
  case base
  from trailing_run_fires [OF assms(1,2)] show ?case by simp
next
  case (step k)
  let ?r = "Consecutive_run b (replicate k (Update True))"
  from step have st: "m_state ?r" by simp
  from assms(2) have "consec_n (m_cfg b) \<noteq> 0"
    by auto
  then have "consec_n (m_cfg ?r) \<noteq> 0" by (simp add: Consecutive_run_cfg)
  from held_stays [OF st this] step.hyps show ?case
    by (simp only: Consecutive_run_replicate_Suc Consecutive_call.simps) simp
qed

lemma pressed_on_run_end:
  assumes "trailing_run 0 b" and "consec_n (m_cfg b) \<noteq> 0" and "0 < k"
  shows "m_pressed (Consecutive_run b (replicate k (Update True)))
           = (k = min 8 (unat (consec_n (m_cfg b))))"
proof -
  let ?m = "min 8 (unat (consec_n (m_cfg b)))"
  from assms(2) have "0 < ?m" by (simp add: unat_gt_0)
  then obtain j where j: "Suc j = ?m" by (metis Suc_pred)
  show ?thesis
  proof (cases "k < ?m")
    case True
    then have "k \<noteq> ?m" by (rule less_imp_neq)
    with trailing_run_replicate [OF assms(1) True] assms(3) show ?thesis by blast
  next
    case False
    then have "?m \<le> k" by (rule leI)
    then have "Suc j \<le> k" by (simp only: j)
    from held_after_fire [OF assms(1) j this] show ?thesis by (simp only: j)
  qed
qed

lemma false_sample_restarts:
  assumes "\<not> m_state b" and "consec_n (m_cfg b) \<noteq> 0"
  shows "trailing_run 0 (Consecutive_update b False)"
    and "\<not> m_pressed (Consecutive_update b False)"
proof -
  let ?m = "min 8 (unat (consec_n (m_cfg b)))"
  let ?h = "update_hist (hist (m_eng b)) False"
  from assms(2) have "0 < ?m" by (simp add: unat_gt_0)
  moreover have z: "\<not> bit ?h 0" by (simp add: bit_update_hist)
  ultimately have np: "\<not> (\<forall>i < ?m. bit ?h i)" by blast
  with assms(1) z show "trailing_run 0 (Consecutive_update b False)"
    by (simp add: trailing_run_def Consecutive_update_fields)
  from np show "\<not> m_pressed (Consecutive_update b False)"
    by (simp add: Consecutive_update_fields)
qed

text \<open>
  Claim C3, as amended.  In the consecutive engine with \<open>consec_n = n\<close>, \<open>n \<ge> 1\<close>,
  from any released state:
  \<^item> if the newest sample in the history is false (bit 0 of \<open>hist\<close> is 0, as after
    \<open>reset(false)\<close> or after any false sample), then of \<open>k \<ge> 1\<close> consecutive true
    samples fed, \<open>pressed()\<close> is true after the \<open>k\<close>-th exactly when
    \<open>k = min n 8\<close>: on the \<open>n\<close>-th sample when \<open>n \<le> 8\<close>, not earlier and
    not later;
  \<^item> a false sample resets the run: after one false sample and then \<open>k \<ge> 0\<close> true
    samples, \<open>pressed()\<close> is true exactly when \<open>k = min n 8\<close>, whatever the history
    held before.
\<close>

theorem Consecutive_pressed_on_nth:
  assumes "consec_n (m_cfg b) \<noteq> 0" and "\<not> down b"
  shows "(\<not> bit (hist (m_eng b)) 0 \<and> 0 < k \<longrightarrow>
            pressed (Consecutive_run b (replicate k (Update True)))
              = (k = min 8 (unat (consec_n (m_cfg b)))))
         \<and> pressed (Consecutive_run b (Update False # replicate k (Update True)))
              = (k = min 8 (unat (consec_n (m_cfg b))))"
proof (rule conjI)
  show "\<not> bit (hist (m_eng b)) 0 \<and> 0 < k \<longrightarrow>
            pressed (Consecutive_run b (replicate k (Update True)))
              = (k = min 8 (unat (consec_n (m_cfg b))))"
  proof
    assume a: "\<not> bit (hist (m_eng b)) 0 \<and> 0 < k"
    with assms(2) have "trailing_run 0 b" by (simp add: trailing_run_def down_def)
    from pressed_on_run_end [OF this assms(1)] a show
      "pressed (Consecutive_run b (replicate k (Update True)))
              = (k = min 8 (unat (consec_n (m_cfg b))))"
      by (simp add: pressed_def)
  qed
next
  let ?b = "Consecutive_update b False"
  from assms have s: "\<not> m_state b" by (simp add: down_def)
  note r = false_sample_restarts [OF s assms(1)]
  have c: "consec_n (m_cfg ?b) \<noteq> 0" "m_cfg ?b = m_cfg b"
    using assms(1) by (simp_all add: Consecutive_update_fields)
  have e: "Consecutive_run b (Update False # replicate k (Update True))
             = Consecutive_run ?b (replicate k (Update True))"
    by (simp add: Consecutive_run_def)
  show "pressed (Consecutive_run b (Update False # replicate k (Update True)))
              = (k = min 8 (unat (consec_n (m_cfg b))))"
  proof (cases k)
    case 0
    with r(2) assms(1) show ?thesis
      by (simp add: e pressed_def Consecutive_run_def unat_gt_0)
  next
    case (Suc k')
    then have "0 < k" by simp
    from pressed_on_run_end [OF r(1) c(1) this] show ?thesis
      by (simp only: e pressed_def c(2))
  qed
qed

theorem Consecutive_pressed_on_nth_witness:
  "consec_n (m_cfg (History_construct default_Config)) \<noteq> 0
   \<and> \<not> down (History_construct default_Config)
   \<and> \<not> bit (hist (m_eng (History_construct default_Config))) 0
   \<and> \<not> pressed (Consecutive_run (History_construct default_Config) (replicate 2 (Update True)))
   \<and> pressed (Consecutive_run (History_construct default_Config) (replicate 3 (Update True)))
   \<and> \<not> pressed (Consecutive_run (History_construct default_Config) (replicate 4 (Update True)))
   \<and> pressed (Consecutive_run (History_construct default_Config)
                 (Update False # replicate 3 (Update True)))"
proof -
  let ?b = "History_construct default_Config"
  have h: "consec_n (m_cfg ?b) \<noteq> 0" "\<not> down ?b"
    by (simp_all add: History_construct_def History_construct_from_def History_reset_def
        default_Config_def down_def)
  have z: "\<not> bit (hist (m_eng ?b)) 0"
    by (simp add: History_construct_def History_construct_from_def History_reset_def)
  have m: "min 8 (unat (consec_n (m_cfg ?b))) = 3"
    by (simp add: History_construct_def History_construct_from_def History_reset_def
        default_Config_def)
  from Consecutive_pressed_on_nth [OF h, of 2] Consecutive_pressed_on_nth [OF h, of 3]
    Consecutive_pressed_on_nth [OF h, of 4] h z m
  show ?thesis by simp
qed

text \<open>
  The claim as written fails.  After \<open>reset(false)\<close> and two true samples under the
  default \<open>consec_n = 3\<close> the state is released and its history, \<open>0b011\<close>, does not
  satisfy the 3-bit mask; of three true samples fed from there the first fires
  \<open>pressed()\<close> and the third does not.  And with \<open>consec_n = 9\<close> the mask is clamped
  to \<open>0xFF\<close>: from \<open>reset(false)\<close> the eighth true sample fires \<open>pressed()\<close>, the
  ninth does not.
\<close>

theorem Consecutive_pressed_on_nth_counterexample:
  "consec_n (m_cfg partial_run_example) = 3
   \<and> \<not> down partial_run_example
   \<and> hist (m_eng partial_run_example) AND consec_mask 3 \<noteq> consec_mask 3
   \<and> pressed (Consecutive_run partial_run_example (replicate 1 (Update True)))
   \<and> \<not> pressed (Consecutive_run partial_run_example (replicate 3 (Update True)))
   \<and> consec_n (m_cfg (History_construct n9_Config)) = 9
   \<and> \<not> down (History_construct n9_Config)
   \<and> hist (m_eng (History_construct n9_Config)) AND consec_mask 9 \<noteq> consec_mask 9
   \<and> pressed (Consecutive_run (History_construct n9_Config) (replicate 8 (Update True)))
   \<and> \<not> pressed (Consecutive_run (History_construct n9_Config) (replicate 9 (Update True)))"
  by code_simp

end
